theory Spec2Isabelle
  imports Main "HOL-Library.AList"
begin

section \<open>Python values and exceptions\<close>

text \<open>
  A Python \<open>str\<close> is modelled as a \<open>string\<close>: one \<open>char\<close> per code point, which covers
  the code points U+0000 to U+00FF. Values that the program handles without looking at
  their type (the optional fields of a community, the values of an API dictionary, the
  optional attributes of an outline) are \<open>pyval\<close>s.
\<close>

datatype pyval = PyNone | PyInt int | PyStr string

text \<open>
  Every \<open>ValueError\<close> the program raises carries a formatted message. The constructor
  records which message it is and the values interpolated into it.
\<close>

datatype value_error =
    NotLemmyCommunityUrl string
    \<comment> \<open>"URL does not appear to be a Lemmy community URL: {url}"\<close>
  | NotLemmyFeedUrl string
    \<comment> \<open>"URL does not appear to be a Lemmy feed URL: {url}"\<close>
  | NotLemmyCommunityFeedUrl string
    \<comment> \<open>"URL does not appear to be a Lemmy community feed URL: {url}"\<close>
  | InvalidFormat string
    \<comment> \<open>"Invalid format: {text}"\<close>
  | ValueNotInSortByValues string
    \<comment> \<open>"Value '{sort_by_str}' not in {set(SORT_BY_VALUES.keys())}"\<close>
  | SortingNotSupported string bool
    \<comment> \<open>"Sorting by '{sort_by_str}' not supported for {Kbin or Lemmy} communities."\<close>
  | CouldNotInferFromOutline
    \<comment> \<open>"Could not infer Lemmy community from Outline object."\<close>
  | InvalidNetloc string
    \<comment> \<open>raised by \<open>urlsplit\<close> for a netloc with unbalanced brackets or a bad bracketed host\<close>

datatype py_error =
    ValueError value_error
  | IndexError
  | KeyError string
  | TypeError
  | AttributeError

section \<open>The string operations of the standard library that the program calls\<close>

text \<open>\<open>s.split(sep)\<close> for a one-character separator: never empty, \<open>''.split('/') == ['']\<close>.\<close>

fun cons_first :: "char \<Rightarrow> string list \<Rightarrow> string list" where
  "cons_first c [] = [[c]]"
| "cons_first c (t # ts) = (c # t) # ts"

fun split_on :: "char \<Rightarrow> string \<Rightarrow> string list" where
  "split_on sep [] = [[]]"
| "split_on sep (c # cs) =
     (if c = sep then [] # split_on sep cs else cons_first c (split_on sep cs))"

text \<open>\<open>xs[i]\<close> for a literal index \<open>i \<ge> 0\<close>: out of range raises \<open>IndexError\<close>.\<close>

definition py_index :: "'a list \<Rightarrow> nat \<Rightarrow> py_error + 'a" where
  "py_index xs i = (if i < length xs then Inr (xs ! i) else Inl IndexError)"

text \<open>\<open>s.find(c)\<close>: the first index of \<open>c\<close>, \<open>None\<close> where Python returns \<open>-1\<close>.\<close>

definition str_find :: "char \<Rightarrow> string \<Rightarrow> nat option" where
  "str_find c s = (if c \<in> set s then Some (length (takeWhile (\<lambda>x. x \<noteq> c) s)) else None)"

text \<open>\<open>s.rfind(c)\<close>: the last index of \<open>c\<close>, as an \<open>int\<close> with Python's \<open>-1\<close> for absence.\<close>

definition str_rfind :: "char \<Rightarrow> string \<Rightarrow> int" where
  "str_rfind c s =
     (if c \<in> set s then int (length s) - 1 - int (length (takeWhile (\<lambda>x. x \<noteq> c) (rev s)))
      else - 1)"

text \<open>
  \<open>os.path.splitext\<close> (\<open>genericpath._splitext\<close> with \<open>sep = '/'\<close>, no \<open>altsep\<close>,
  \<open>extsep = '.'\<close>): the extension starts at the last dot, unless only dots precede it in
  the file name.
\<close>

definition splitext :: "string \<Rightarrow> string \<times> string" where
  "splitext p =
     (let sepIndex = str_rfind CHR ''/'' p;
          dotIndex = str_rfind CHR ''.'' p
      in if dotIndex > sepIndex
            \<and> list_ex (\<lambda>c. c \<noteq> CHR ''.'')
                 (take (nat (dotIndex - (sepIndex + 1))) (drop (nat (sepIndex + 1)) p))
         then (take (nat dotIndex) p, drop (nat dotIndex) p)
         else (p, []))"

subsection \<open>\<open>urllib.parse.urlsplit\<close>\<close>

text \<open>
  The functions of \<open>urllib.parse\<close> and \<open>os.path\<close> are modelled after the sources of
  CPython 3.11, on a POSIX system.
\<close>

record split_result =
  scheme :: string
  netloc :: string
  path :: string
  query :: string
  fragment :: string

definition scheme_chars :: string where
  "scheme_chars = ''abcdefghijklmnopqrstuvwxyzABCDEFGHIJKLMNOPQRSTUVWXYZ0123456789+-.''"

text \<open>The code points 0 to 0x20, which \<open>urlsplit\<close> strips from the left of the URL.\<close>

definition WHATWG_C0_CONTROL_OR_SPACE :: "char \<Rightarrow> bool" where
  "WHATWG_C0_CONTROL_OR_SPACE c \<longleftrightarrow> (of_char c :: nat) \<le> 32"

text \<open>Tab, carriage return and line feed, which \<open>urlsplit\<close> removes everywhere.\<close>

definition UNSAFE_URL_BYTES_TO_REMOVE :: string where
  "UNSAFE_URL_BYTES_TO_REMOVE = [CHR 0x09, CHR 0x0D, CHR 0x0A]"

text \<open>\<open>c.isascii() and c.isalpha()\<close>.\<close>

definition ascii_alpha :: "char \<Rightarrow> bool" where
  "ascii_alpha c \<longleftrightarrow>
     c \<in> set ''abcdefghijklmnopqrstuvwxyzABCDEFGHIJKLMNOPQRSTUVWXYZ''"

text \<open>\<open>str.lower\<close> on the characters a scheme can have.\<close>

definition ascii_lower :: "char \<Rightarrow> char" where
  "ascii_lower c =
     (if c \<in> set ''ABCDEFGHIJKLMNOPQRSTUVWXYZ'' then char_of (of_char c + (32::nat)) else c)"

text \<open>
  \<open>_splitnetloc(url, 2)\<close>: the netloc runs from index 2 to the first of \<open>/\<close>, \<open>?\<close>, \<open>#\<close>
  (or to the end), and the rest starts at that delimiter.
\<close>

definition splitnetloc :: "string \<Rightarrow> string \<times> string" where
  "splitnetloc url =
     (takeWhile (\<lambda>c. c \<notin> set ''/?#'') (drop 2 url),
      dropWhile (\<lambda>c. c \<notin> set ''/?#'') (drop 2 url))"

text \<open>\<open>netloc.partition('[')[2].partition(']')[0]\<close>.\<close>

definition bracketed_host :: "string \<Rightarrow> string" where
  "bracketed_host nl =
     takeWhile (\<lambda>c. c \<noteq> CHR '']'') (drop 1 (dropWhile (\<lambda>c. c \<noteq> CHR ''['') nl))"

text \<open>
  The bracket checks of \<open>urlsplit\<close>. A netloc with exactly one kind of bracket is
  rejected; with both, \<open>_check_bracketed_host\<close> decides, through the \<open>ipaddress\<close>
  module and a regular expression. That decision belongs to the standard library and is
  the parameter \<open>chk\<close> here: \<open>chk h\<close> holds when \<open>_check_bracketed_host(h)\<close> returns
  without raising.
\<close>

definition netloc_brackets_ok :: "(string \<Rightarrow> bool) \<Rightarrow> string \<Rightarrow> bool" where
  "netloc_brackets_ok chk nl =
     (if CHR ''['' \<in> set nl \<and> CHR '']'' \<in> set nl then chk (bracketed_host nl)
      else CHR ''['' \<notin> set nl \<and> CHR '']'' \<notin> set nl)"

text \<open>\<open>url.split(c, 1)\<close> where \<open>c\<close> occurs in \<open>url\<close>: the parts before and after the first \<open>c\<close>.\<close>

definition split_once :: "char \<Rightarrow> string \<Rightarrow> string \<times> string" where
  "split_once c url =
     (takeWhile (\<lambda>x. x \<noteq> c) url, drop 1 (dropWhile (\<lambda>x. x \<noteq> c) url))"

text \<open>
  \<open>urlsplit(url)\<close> for a \<open>str\<close>, with the default \<open>scheme=''\<close> and \<open>allow_fragments=True\<close>,
  in the order of the original: strip and clean the URL, split off the scheme, the
  netloc, the fragment and the query.
\<close>

definition clean_url :: "string \<Rightarrow> string" where
  "clean_url url =
     filter (\<lambda>c. c \<notin> set UNSAFE_URL_BYTES_TO_REMOVE) (dropWhile WHATWG_C0_CONTROL_OR_SPACE url)"

text \<open>
  The scheme is what precedes the first colon, when that is not empty, starts with an
  ASCII letter and has scheme characters only; it is lowered. Otherwise there is none.
\<close>

definition split_scheme :: "string \<Rightarrow> string \<times> string" where
  "split_scheme url =
     (case str_find CHR '':'' url of
        None \<Rightarrow> ([], url)
      | Some i \<Rightarrow>
          if 0 < i \<and> ascii_alpha (hd url) \<and> list_all (\<lambda>c. c \<in> set scheme_chars) (take i url)
          then (map ascii_lower (take i url), drop (Suc i) url)
          else ([], url))"

definition split_fragment :: "string \<Rightarrow> string \<times> string" where
  "split_fragment url = (if CHR ''#'' \<in> set url then split_once CHR ''#'' url else (url, []))"

definition split_query :: "string \<Rightarrow> string \<times> string" where
  "split_query url = (if CHR ''?'' \<in> set url then split_once CHR ''?'' url else (url, []))"

text \<open>
  The last step of the original, \<open>_checknetloc\<close>, only rejects a netloc that has a
  character whose NFKC normal form contains one of \<open>/?#@:\<close>; no code point up to U+00FF
  has such a form, so the step changes nothing here.
\<close>

definition urlsplit :: "(string \<Rightarrow> bool) \<Rightarrow> string \<Rightarrow> py_error + split_result" where
  "urlsplit chk url =
     (case split_scheme (clean_url url) of (sch, url3) \<Rightarrow>
        (case (if take 2 url3 = ''//'' then splitnetloc url3 else ([], url3)) of (nl, url4) \<Rightarrow>
           if take 2 url3 = ''//'' \<and> \<not> netloc_brackets_ok chk nl
           then Inl (ValueError (InvalidNetloc nl))
           else
             (case split_fragment url4 of (url5, frag) \<Rightarrow>
                (case split_query url5 of (url6, qry) \<Rightarrow>
                   Inr \<lparr>scheme = sch, netloc = nl, path = url6, query = qry,
                        fragment = frag\<rparr>))))"

subsection \<open>\<open>urllib.parse.urlunsplit\<close> and \<open>urllib.parse.urlencode\<close>\<close>

definition uses_netloc :: "string list" where
  "uses_netloc = ['''', ''ftp'', ''http'', ''gopher'', ''nntp'', ''telnet'',
     ''imap'', ''wais'', ''file'', ''mms'', ''https'', ''shttp'',
     ''snews'', ''prospero'', ''rtsp'', ''rtsps'', ''rtspu'', ''rsync'',
     ''svn'', ''svn+ssh'', ''sftp'', ''nfs'', ''git'', ''git+ssh'',
     ''ws'', ''wss'']"

definition urlunsplit :: "string \<times> string \<times> string \<times> string \<times> string \<Rightarrow> string" where
  "urlunsplit components =
     (case components of (sch, nl, url, qry, frag) \<Rightarrow>
        let url1 = (if nl \<noteq> [] \<or> (sch \<noteq> [] \<and> sch \<in> set uses_netloc) \<or> take 2 url = ''//''
                    then ''//'' @ nl @ (if url \<noteq> [] \<and> take 1 url \<noteq> ''/'' then ''/'' @ url else url)
                    else url);
            url2 = (if sch \<noteq> [] then sch @ '':'' @ url1 else url1);
            url3 = (if qry \<noteq> [] then url2 @ ''?'' @ qry else url2)
        in if frag \<noteq> [] then url3 @ ''#'' @ frag else url3)"

definition ALWAYS_SAFE :: string where
  "ALWAYS_SAFE = ''ABCDEFGHIJKLMNOPQRSTUVWXYZabcdefghijklmnopqrstuvwxyz0123456789_.-~''"

text \<open>The UTF-8 bytes of a code point up to U+00FF.\<close>

definition utf8_bytes :: "char \<Rightarrow> nat list" where
  "utf8_bytes c =
     (let n = (of_char c :: nat)
      in if n < 128 then [n] else [192 + n div 64, 128 + n mod 64])"

definition hex_digit :: "nat \<Rightarrow> char" where
  "hex_digit n = ''0123456789ABCDEF'' ! n"

text \<open>\<open>_Quoter.__missing__\<close>: a safe byte stays, any other becomes \<open>%XX\<close>.\<close>

definition quote_byte :: "string \<Rightarrow> nat \<Rightarrow> string" where
  "quote_byte safe b =
     (if b < 128 \<and> char_of b \<in> set (ALWAYS_SAFE @ safe) then [char_of b]
      else [CHR ''%'', hex_digit (b div 16), hex_digit (b mod 16)])"

definition quote :: "string \<Rightarrow> string \<Rightarrow> string" where
  "quote safe s = concat (map (quote_byte safe) (concat (map utf8_bytes s)))"

definition quote_plus :: "string \<Rightarrow> string" where
  "quote_plus s =
     (if CHR '' '' \<notin> set s then quote [] s
      else map (\<lambda>c. if c = CHR '' '' then CHR ''+'' else c) (quote '' '' s))"

text \<open>\<open>urlencode\<close> of a dictionary with \<open>str\<close> keys and values, in the order of its items.\<close>

fun join_amp :: "string list \<Rightarrow> string" where
  "join_amp [] = []"
| "join_amp [x] = x"
| "join_amp (x # y # zs) = x @ ''&'' @ join_amp (y # zs)"

definition urlencode :: "(string \<times> string) list \<Rightarrow> string" where
  "urlencode items = join_amp (map (\<lambda>(k, v). quote_plus k @ ''='' @ quote_plus v) items)"

section \<open>The sort-order table\<close>

record SortBy =
  lemmy :: "string option"
  kbin :: "string option"

definition SORT_BY_VALUES :: "(string \<times> SortBy) list" where
  "SORT_BY_VALUES =
     [(''top'', \<lparr>lemmy = Some ''TopAll'', kbin = Some ''top''\<rparr>),
      (''hot'', \<lparr>lemmy = Some ''Hot'', kbin = Some ''hot''\<rparr>),
      (''active'', \<lparr>lemmy = Some ''Active'', kbin = Some ''active''\<rparr>),
      (''new'', \<lparr>lemmy = Some ''New'', kbin = Some ''newest''\<rparr>),
      (''old'', \<lparr>lemmy = Some ''Old'', kbin = None\<rparr>),
      (''mostcomments'', \<lparr>lemmy = Some ''MostComments'', kbin = Some ''commented''\<rparr>),
      (''newcomments'', \<lparr>lemmy = Some ''NewComments'', kbin = None\<rparr>)]"

section \<open>Communities\<close>

record LemmyCommunity =
  instance_c :: string
  name_c :: string
  id_c :: pyval
  title_c :: pyval
  description_c :: pyval
  is_kbin :: bool

text \<open>
  What \<open>urlsplit(url)\<close> followed by \<open>parsed.path.split('/')\<close> does when \<open>url\<close> is not a
  \<open>str\<close>: \<open>None\<close> and \<open>0\<close> are falsy, so \<open>urlsplit\<close> returns a bytes result and
  \<open>bytes.split\<close> with a \<open>str\<close> separator raises \<open>TypeError\<close>; any other integer has no
  \<open>decode\<close> method, so \<open>urlsplit\<close> itself raises \<open>AttributeError\<close>.
\<close>

definition non_str_url_error :: "pyval \<Rightarrow> py_error" where
  "non_str_url_error v = (case v of PyInt n \<Rightarrow> (if n = 0 then TypeError else AttributeError)
                                   | _ \<Rightarrow> TypeError)"

definition from_url ::
  "(string \<Rightarrow> bool) \<Rightarrow> pyval \<Rightarrow> pyval \<Rightarrow> pyval \<Rightarrow> pyval \<Rightarrow> py_error + LemmyCommunity" where
  "from_url chk url ident title description =
     (case url of
        PyStr u \<Rightarrow>
          (case urlsplit chk u of
             Inl e \<Rightarrow> Inl e
           | Inr parsed \<Rightarrow>
               let path_tokens = drop 1 (split_on CHR ''/'' (path parsed)) in
               (case py_index path_tokens 0 of
                  Inl e \<Rightarrow> Inl e
                | Inr t0 \<Rightarrow>
                    (case (if t0 = ''c'' then Inr False
                           else if t0 = ''m'' then Inr True
                           else Inl (ValueError (NotLemmyCommunityUrl u))) of
                       Inl e \<Rightarrow> Inl e
                     | Inr kb \<Rightarrow>
                         (case py_index path_tokens 1 of
                            Inl e \<Rightarrow> Inl e
                          | Inr t1 \<Rightarrow>
                              Inr \<lparr>instance_c = netloc parsed, name_c = t1, id_c = ident,
                                   title_c = title, description_c = description,
                                   is_kbin = kb\<rparr>))))
      | _ \<Rightarrow> Inl (non_str_url_error url))"

definition from_feed_url :: "(string \<Rightarrow> bool) \<Rightarrow> pyval \<Rightarrow> py_error + LemmyCommunity" where
  "from_feed_url chk url =
     (case url of
        PyStr u \<Rightarrow>
          (case urlsplit chk u of
             Inl e \<Rightarrow> Inl e
           | Inr parsed \<Rightarrow>
               let path_tokens = drop 1 (split_on CHR ''/'' (path parsed)) in
               (case py_index path_tokens 0 of
                  Inl e \<Rightarrow> Inl e
                | Inr t0 \<Rightarrow>
                    if t0 \<noteq> ''feeds'' then Inl (ValueError (NotLemmyFeedUrl u))
                    else
                      (case py_index path_tokens 1 of
                         Inl e \<Rightarrow> Inl e
                       | Inr t1 \<Rightarrow>
                           if t1 \<noteq> ''c'' then Inl (ValueError (NotLemmyCommunityFeedUrl u))
                           else
                             (case py_index path_tokens 2 of
                                Inl e \<Rightarrow> Inl e
                              | Inr t2 \<Rightarrow>
                                  Inr \<lparr>instance_c = netloc parsed, name_c = fst (splitext t2),
                                       id_c = PyNone, title_c = PyNone, description_c = PyNone,
                                       is_kbin = False\<rparr>))))
      | _ \<Rightarrow> Inl (non_str_url_error url))"

text \<open>
  \<open>from_text\<close>: \<open>text[0]\<close> of the empty string raises \<open>IndexError\<close>; unpacking
  \<open>text[1:].split("@")\<close> into two names raises \<open>ValueError\<close> unless there are exactly two
  parts, which the code re-raises with its own message.
\<close>

definition from_text :: "string \<Rightarrow> bool \<Rightarrow> py_error + LemmyCommunity" where
  "from_text txt kb =
     (case py_index txt 0 of
        Inl e \<Rightarrow> Inl e
      | Inr c0 \<Rightarrow>
          if c0 \<noteq> CHR ''!'' then Inl (ValueError (InvalidFormat txt))
          else
            (case split_on CHR ''@'' (drop 1 txt) of
               [community, inst] \<Rightarrow>
                 Inr \<lparr>instance_c = inst, name_c = community, id_c = PyNone, title_c = PyNone,
                      description_c = PyNone, is_kbin = kb\<rparr>
             | _ \<Rightarrow> Inl (ValueError (InvalidFormat txt))))"

text \<open>
  \<open>from_dict\<close>: \<open>data["actor_id"]\<close> and \<open>data["id"]\<close> raise \<open>KeyError\<close> for a missing key,
  \<open>data.get\<close> gives \<open>None\<close>. The arguments are evaluated in this order before the call.
\<close>

definition dict_item :: "(string \<rightharpoonup> pyval) \<Rightarrow> string \<Rightarrow> py_error + pyval" where
  "dict_item data k = (case data k of None \<Rightarrow> Inl (KeyError k) | Some v \<Rightarrow> Inr v)"

definition dict_get :: "(string \<rightharpoonup> pyval) \<Rightarrow> string \<Rightarrow> pyval" where
  "dict_get data k = (case data k of None \<Rightarrow> PyNone | Some v \<Rightarrow> v)"

definition from_dict :: "(string \<Rightarrow> bool) \<Rightarrow> (string \<rightharpoonup> pyval) \<Rightarrow> py_error + LemmyCommunity" where
  "from_dict chk data =
     (case dict_item data ''actor_id'' of
        Inl e \<Rightarrow> Inl e
      | Inr url \<Rightarrow>
          (case dict_item data ''id'' of
             Inl e \<Rightarrow> Inl e
           | Inr ident \<Rightarrow>
               from_url chk url ident (dict_get data ''title'') (dict_get data ''description'')))"

subsection \<open>Rendering\<close>

definition resolve_sort_by :: "LemmyCommunity \<Rightarrow> string option \<Rightarrow> py_error + string option" where
  "resolve_sort_by self sort_by_str =
     (case sort_by_str of
        None \<Rightarrow> Inr None
      | Some s \<Rightarrow>
          (case map_of SORT_BY_VALUES s of
             None \<Rightarrow> Inl (ValueError (ValueNotInSortByValues s))
           | Some ambiguous_sort_by \<Rightarrow>
               let actual_sort_by =
                     (if is_kbin self then kbin ambiguous_sort_by else lemmy ambiguous_sort_by)
               in (case actual_sort_by of
                     None \<Rightarrow> Inl (ValueError (SortingNotSupported s (is_kbin self)))
                   | Some tok \<Rightarrow> Inr (Some tok))))"

text \<open>
  \<open>html_url\<close> and \<open>rss_url\<close> catch the \<open>ValueError\<close> of \<open>_resolve_sort_by\<close>, log a warning
  and go on without a sort order. \<open>_resolve_sort_by\<close> raises nothing else.
\<close>

definition html_url :: "LemmyCommunity \<Rightarrow> string option \<Rightarrow> string" where
  "html_url self sort_by0 =
     (let sort_by = (case resolve_sort_by self sort_by0 of Inr r \<Rightarrow> r | Inl e \<Rightarrow> None);
          (pth, q) =
            (if is_kbin self
             then (''/m/'' @ name_c self @ (case sort_by of None \<Rightarrow> [] | Some t \<Rightarrow> ''/'' @ t), [])
             else (''/c/'' @ name_c self,
                   (case sort_by of None \<Rightarrow> [] | Some t \<Rightarrow> urlencode [(''sort'', t)])))
      in urlunsplit (''https'', instance_c self, pth, q, []))"

definition rss_url :: "LemmyCommunity \<Rightarrow> string option \<Rightarrow> string" where
  "rss_url self sort_by0 =
     (let sort_by =
            (case sort_by0 of
               None \<Rightarrow> None
             | Some s \<Rightarrow>
                 if is_kbin self then Some s
                 else (case resolve_sort_by self (Some s) of Inr r \<Rightarrow> r | Inl e \<Rightarrow> None));
          (pth, q) =
            (if is_kbin self
             then (''/rss'', urlencode [(''magazine'', name_c self)])
             else (''/feeds/c/'' @ name_c self @ ''.xml'',
                   (case sort_by of None \<Rightarrow> [] | Some t \<Rightarrow> urlencode [(''sort'', t)])))
      in urlunsplit (''https'', instance_c self, pth, q, []))"

definition text_c :: "LemmyCommunity \<Rightarrow> string" where
  "text_c self = ''!'' @ name_c self @ ''@'' @ instance_c self"

section \<open>Outlines\<close>

text \<open>
  The \<open>Outline\<close> class of the OPML library, with the attributes this program reads or
  writes. An attribute that is absent is \<open>None\<close>.
\<close>

datatype outline =
  Outline (type_attr: pyval) (text_attr: string) (title_attr: pyval)
    (description_attr: pyval) (xml_url_attr: pyval) (html_url_attr: pyval)
    (outlines: "outline list")

definition to_outline :: "LemmyCommunity \<Rightarrow> string option \<Rightarrow> bool \<Rightarrow> outline" where
  "to_outline self sort_by include_description =
     Outline (PyStr ''rss'') (text_c self) (title_c self)
       (if include_description then description_c self else PyNone)
       (PyStr (rss_url self sort_by)) (PyStr (html_url self sort_by)) []"

text \<open>
  \<open>_walk_outlines(top)\<close>, applied to \<open>top.outlines\<close>: the outlines that are not of type
  "category", in document order, descending into those that are.
\<close>

fun walk_outlines :: "outline list \<Rightarrow> outline list" where
  "walk_outlines [] = []"
| "walk_outlines (Outline ty tx ti de xu hu children # rest) =
     (if ty = PyStr ''category'' then walk_outlines children @ walk_outlines rest
      else Outline ty tx ti de xu hu children # walk_outlines rest)"

text \<open>The exceptions the two handlers of \<open>from_outline\<close> catch.\<close>

definition caught_by_from_outline :: "py_error \<Rightarrow> bool" where
  "caught_by_from_outline e =
     (case e of ValueError m \<Rightarrow> True | AttributeError \<Rightarrow> True | _ \<Rightarrow> False)"

definition from_outline :: "(string \<Rightarrow> bool) \<Rightarrow> outline \<Rightarrow> py_error + LemmyCommunity" where
  "from_outline chk ol =
     (case from_url chk (html_url_attr ol) PyNone PyNone PyNone of
        Inr c \<Rightarrow> Inr c
      | Inl e \<Rightarrow>
          if \<not> caught_by_from_outline e then Inl e
          else
            (case from_feed_url chk (xml_url_attr ol) of
               Inr c \<Rightarrow> Inr c
             | Inl e' \<Rightarrow>
                 if \<not> caught_by_from_outline e' then Inl e'
                 else Inl (ValueError CouldNotInferFromOutline)))"

text \<open>
  The loop of \<open>from_opml\<close>: a \<open>ValueError\<close> of \<open>from_outline\<close> is counted, any other
  exception leaves the loop and the function.
\<close>

fun from_opml_loop ::
  "(string \<Rightarrow> bool) \<Rightarrow> outline list \<Rightarrow> LemmyCommunity list \<times> nat
     \<Rightarrow> py_error + (LemmyCommunity list \<times> nat)" where
  "from_opml_loop chk [] acc = Inr acc"
| "from_opml_loop chk (ol # rest) (communities, failed) =
     (case from_outline chk ol of
        Inr c \<Rightarrow> from_opml_loop chk rest (communities @ [c], failed)
      | Inl (ValueError m) \<Rightarrow> from_opml_loop chk rest (communities, failed + 1)
      | Inl e \<Rightarrow> Inl e)"

text \<open>\<open>from_opml(opml)\<close>, given \<open>opml.body.outlines\<close>.\<close>

definition from_opml ::
  "(string \<Rightarrow> bool) \<Rightarrow> outline list \<Rightarrow> py_error + (LemmyCommunity list \<times> nat)" where
  "from_opml chk body = from_opml_loop chk (walk_outlines body) ([], 0)"

section \<open>Building the document\<close>

text \<open>
  The part of \<open>subscribed_to_opml\<close> that builds the body from the list of communities
  (logging in, fetching that list and the head of the document are outside). The state
  of the loop is \<open>body.outlines\<close> and the dictionary \<open>cat_outlines\<close>, which keeps its keys
  in insertion order; \<open>parent.outlines.append\<close> on a category changes the outline the
  dictionary holds, in place.
\<close>

definition append_outline :: "outline \<Rightarrow> outline \<Rightarrow> outline" where
  "append_outline parent child =
     (case parent of Outline ty tx ti de xu hu children \<Rightarrow>
        Outline ty tx ti de xu hu (children @ [child]))"

fun opml_loop ::
  "bool \<Rightarrow> string option \<Rightarrow> LemmyCommunity list
     \<Rightarrow> outline list \<times> (string \<times> outline) list \<Rightarrow> outline list \<times> (string \<times> outline) list" where
  "opml_loop categories sort_by [] st = st"
| "opml_loop categories sort_by (c # cs) (body, cat_outlines) =
     (if categories then
        (let parent =
               (case map_of cat_outlines (instance_c c) of
                  Some p \<Rightarrow> p
                | None \<Rightarrow> Outline (PyStr ''category'') (instance_c c) PyNone PyNone PyNone PyNone [])
         in opml_loop categories sort_by cs
              (body,
               AList.update (instance_c c)
                 (append_outline parent (to_outline c sort_by False)) cat_outlines))
      else opml_loop categories sort_by cs
             (body @ [to_outline c sort_by False], cat_outlines))"

text \<open>The result: the outlines of the body and the number of communities.\<close>

definition subscribed_to_opml ::
  "bool \<Rightarrow> string option \<Rightarrow> LemmyCommunity list \<Rightarrow> outline list \<times> nat" where
  "subscribed_to_opml categories sort_by communities =
     (case opml_loop categories sort_by communities ([], []) of
        (body, cat_outlines) \<Rightarrow>
          ((if categories then body @ map snd cat_outlines else body), length communities))"

section \<open>Notions used in the statements\<close>

text \<open>
  An instance of the parameter of \<open>urlsplit\<close>: every bracketed host is accepted. The
  concrete URLs below have no brackets, so the choice does not matter there.
\<close>

definition accept_bracketed :: "string \<Rightarrow> bool" where
  "accept_bracketed h \<longleftrightarrow> True"

text \<open>
  A name is plain when it has none of the characters that \<open>urlsplit\<close> treats as
  delimiters (\<open>/\<close>, \<open>?\<close>, \<open>#\<close>) or removes (tab, carriage return, line feed). A host is
  plain when, in addition, \<open>urlsplit\<close> accepts its brackets. A path is plain when it has
  none of these characters except \<open>/\<close>.
\<close>

definition plain_name :: "string \<Rightarrow> bool" where
  "plain_name s \<longleftrightarrow> list_all (\<lambda>c. c \<notin> set (''/?#'' @ UNSAFE_URL_BYTES_TO_REMOVE)) s"

definition plain_path :: "string \<Rightarrow> bool" where
  "plain_path s \<longleftrightarrow> list_all (\<lambda>c. c \<notin> set (''?#'' @ UNSAFE_URL_BYTES_TO_REMOVE)) s"

definition plain_host :: "(string \<Rightarrow> bool) \<Rightarrow> string \<Rightarrow> bool" where
  "plain_host chk h \<longleftrightarrow> plain_name h \<and> netloc_brackets_ok chk h"

definition url_safe :: "(string \<Rightarrow> bool) \<Rightarrow> LemmyCommunity \<Rightarrow> bool" where
  "url_safe chk c \<longleftrightarrow> plain_host chk (instance_c c) \<and> plain_name (name_c c)"

text \<open>The hosts of a list of communities, each once, in the order of first occurrence.\<close>

definition hosts_first_seen :: "LemmyCommunity list \<Rightarrow> string list" where
  "hosts_first_seen cs = rev (remdups (rev (map instance_c cs)))"

text \<open>The category outline of a host: the leaves of its communities, in their order.\<close>

definition category_node :: "string option \<Rightarrow> LemmyCommunity list \<Rightarrow> string \<Rightarrow> outline" where
  "category_node sort_by cs h =
     Outline (PyStr ''category'') h PyNone PyNone PyNone PyNone
       (map (\<lambda>c. to_outline c sort_by False) (filter (\<lambda>c. instance_c c = h) cs))"

definition grouped :: "string option \<Rightarrow> LemmyCommunity list \<Rightarrow> (string \<times> outline) list" where
  "grouped s cs = map (\<lambda>k. (k, category_node s cs k)) (hosts_first_seen cs)"

section \<open>Splitting strings and URLs\<close>

lemma cons_first_nonempty: "cons_first c ts \<noteq> []"
  by (cases ts) simp_all

lemma split_on_nonempty: "split_on sep s \<noteq> []"
  by (induction s) (simp_all add: cons_first_nonempty)

lemma split_on_no_sep: "sep \<notin> set s \<Longrightarrow> split_on sep s = [s]"
  by (induction s) auto

lemma split_on_append: "sep \<notin> set a \<Longrightarrow> split_on sep (a @ sep # b) = a # split_on sep b"
  by (induction a) auto

lemma plain_name_filter:
  "plain_name s \<Longrightarrow> filter (\<lambda>c. c \<notin> set UNSAFE_URL_BYTES_TO_REMOVE) s = s"
  by (induction s) (auto simp: plain_name_def)

lemma plain_name_no_delim:
  "plain_name s \<Longrightarrow> CHR ''/'' \<notin> set s \<and> CHR ''?'' \<notin> set s \<and> CHR ''#'' \<notin> set s"
  by (induction s) (auto simp: plain_name_def)

lemma plain_name_takeWhile:
  "plain_name s \<Longrightarrow> takeWhile (\<lambda>c. c \<notin> set ''/?#'') (s @ CHR ''/'' # r) = s"
  "plain_name s \<Longrightarrow> dropWhile (\<lambda>c. c \<notin> set ''/?#'') (s @ CHR ''/'' # r) = CHR ''/'' # r"
  by (induction s) (auto simp: plain_name_def)

lemma plain_path_filter:
  "plain_path s \<Longrightarrow> filter (\<lambda>c. c \<notin> set UNSAFE_URL_BYTES_TO_REMOVE) s = s"
  by (induction s) (auto simp: plain_path_def)

lemma plain_path_no_delim:
  "plain_path s \<Longrightarrow> CHR ''?'' \<notin> set s \<and> CHR ''#'' \<notin> set s"
  by (induction s) (auto simp: plain_path_def)

lemma plain_name_path: "plain_name n \<Longrightarrow> plain_path (a # CHR ''/'' # n) = plain_path [a]"
  by (auto simp: plain_name_def plain_path_def UNSAFE_URL_BYTES_TO_REMOVE_def list_all_iff)

lemma splitnetloc_plain:
  assumes "plain_name h"
  shows "splitnetloc (''//'' @ h @ CHR ''/'' # r) = (h, CHR ''/'' # r)"
proof -
  have d: "drop 2 (''//'' @ h @ CHR ''/'' # r) = h @ CHR ''/'' # r"
    by simp
  show ?thesis
    unfolding splitnetloc_def d by (simp only: plain_name_takeWhile [OF assms])
qed

lemma clean_url_https:
  "clean_url (''https:'' @ r) = ''https:'' @ filter (\<lambda>c. c \<notin> set UNSAFE_URL_BYTES_TO_REMOVE) r"
  by (simp add: clean_url_def WHATWG_C0_CONTROL_OR_SPACE_def UNSAFE_URL_BYTES_TO_REMOVE_def)

lemma split_scheme_https: "split_scheme (''https:'' @ r) = (''https'', r)"
  by (simp add: split_scheme_def str_find_def ascii_alpha_def scheme_chars_def ascii_lower_def)

text \<open>
  An https URL with a plain host splits into that host and whatever the rest gives,
  whatever the rest is.
\<close>

lemma urlsplit_https:
  assumes "plain_host chk h"
  shows "urlsplit chk (''https://'' @ h @ CHR ''/'' # rest) =
           (case split_fragment (CHR ''/'' # filter (\<lambda>c. c \<notin> set UNSAFE_URL_BYTES_TO_REMOVE) rest) of
              (url5, frag) \<Rightarrow>
                (case split_query url5 of (url6, qry) \<Rightarrow>
                   Inr \<lparr>scheme = ''https'', netloc = h, path = url6, query = qry, fragment = frag\<rparr>))"
proof -
  let ?r = "filter (\<lambda>c. c \<notin> set UNSAFE_URL_BYTES_TO_REMOVE) rest"
  have ph: "plain_name h" and bh: "netloc_brackets_ok chk h"
    using assms by (simp_all add: plain_host_def)
  have c: "clean_url (''https://'' @ h @ CHR ''/'' # rest) = ''https:'' @ (''//'' @ h @ CHR ''/'' # ?r)"
    using clean_url_https [of "''//'' @ h @ CHR ''/'' # rest"] plain_name_filter [OF ph]
    by (simp add: UNSAFE_URL_BYTES_TO_REMOVE_def)
  have t: "take 2 (''//'' @ h @ CHR ''/'' # ?r) = ''//''"
    by simp
  show ?thesis
    unfolding urlsplit_def c split_scheme_https prod.case t splitnetloc_plain [OF ph]
    using bh by simp
qed

lemma urlsplit_https_plain:
  assumes "plain_host chk h" and "plain_path p"
  shows "urlsplit chk (''https://'' @ h @ CHR ''/'' # p)
           = Inr \<lparr>scheme = ''https'', netloc = h, path = CHR ''/'' # p, query = [], fragment = []\<rparr>"
proof -
  have "CHR ''#'' \<notin> set (CHR ''/'' # p)" "CHR ''?'' \<notin> set (CHR ''/'' # p)"
    using plain_path_no_delim [OF assms(2)] by auto
  then show ?thesis
    unfolding urlsplit_https [OF assms(1)] plain_path_filter [OF assms(2)]
    by (simp add: split_fragment_def split_query_def)
qed

subsection \<open>What \<open>urlsplit\<close> returns\<close>

lemma split_on_tokens:
  "\<forall>t \<in> set (split_on sep s). sep \<notin> set t \<and> set t \<subseteq> set s"
proof (induction s)
  case Nil
  then show ?case by simp
next
  case (Cons c cs)
  show ?case
  proof (cases "c = sep")
    case True
    with Cons show ?thesis by auto
  next
    case False
    obtain t0 ts where ts: "split_on sep cs = t0 # ts"
      using split_on_nonempty [of sep cs] by (cases "split_on sep cs") auto
    have "split_on sep (c # cs) = (c # t0) # ts"
      using False by (simp add: ts)
    with Cons False show ?thesis
      unfolding ts by auto
  qed
qed

lemma clean_url_safe: "c \<in> set (clean_url u) \<Longrightarrow> c \<notin> set UNSAFE_URL_BYTES_TO_REMOVE"
  by (simp add: clean_url_def)

lemma split_scheme_subset: "set (snd (split_scheme u)) \<subseteq> set u"
  by (auto simp: split_scheme_def split: option.splits dest: in_set_dropD)

lemma takeWhile_drop_mem: "c \<in> set (takeWhile P (drop n u)) \<Longrightarrow> P c \<and> c \<in> set u"
  by (auto dest: set_takeWhileD in_set_dropD)

lemma dropWhile_drop_mem: "c \<in> set (dropWhile P (drop n u)) \<Longrightarrow> c \<in> set u"
  by (auto dest: set_dropWhileD in_set_dropD)

lemma splitnetloc_netloc:
  "c \<in> set (fst (splitnetloc u)) \<Longrightarrow> c \<notin> set ''/?#'' \<and> c \<in> set u"
  unfolding splitnetloc_def fst_conv by (rule takeWhile_drop_mem)

lemma splitnetloc_rest: "c \<in> set (snd (splitnetloc u)) \<Longrightarrow> c \<in> set u"
  unfolding splitnetloc_def snd_conv by (rule dropWhile_drop_mem)

lemma split_fragment_path:
  "c \<in> set (fst (split_fragment u)) \<Longrightarrow> c \<noteq> CHR ''#'' \<and> c \<in> set u"
  by (auto simp: split_fragment_def split_once_def split: if_splits dest: set_takeWhileD)

lemma split_query_path:
  "c \<in> set (fst (split_query u)) \<Longrightarrow> c \<noteq> CHR ''?'' \<and> c \<in> set u"
  by (auto simp: split_query_def split_once_def split: if_splits dest: set_takeWhileD)

lemma urlsplit_parts:
  assumes "urlsplit chk u = Inr p"
  shows "plain_host chk (netloc p)" and "plain_path (path p)"
proof -
  obtain sch url3 where s: "split_scheme (clean_url u) = (sch, url3)"
    by (cases "split_scheme (clean_url u)")
  have u3: "c \<in> set url3 \<Longrightarrow> c \<notin> set UNSAFE_URL_BYTES_TO_REMOVE" for c
    using split_scheme_subset [of "clean_url u"] s clean_url_safe [of c u] by auto
  define sl where "sl \<longleftrightarrow> take 2 url3 = ''//''"
  obtain nl url4 where n: "(if sl then splitnetloc url3 else ([], url3)) = (nl, url4)"
    by (cases "if sl then splitnetloc url3 else ([], url3)")
  obtain url5 frag where f: "split_fragment url4 = (url5, frag)"
    by (cases "split_fragment url4")
  obtain url6 qry where q: "split_query url5 = (url6, qry)"
    by (cases "split_query url5")
  have "urlsplit chk u =
          (if sl \<and> \<not> netloc_brackets_ok chk nl then Inl (ValueError (InvalidNetloc nl))
           else Inr \<lparr>scheme = sch, netloc = nl, path = url6, query = qry, fragment = frag\<rparr>)"
    unfolding urlsplit_def s prod.case sl_def [symmetric] n f q ..
  with assms have ok: "\<not> (sl \<and> \<not> netloc_brackets_ok chk nl)"
    and p: "p = \<lparr>scheme = sch, netloc = nl, path = url6, query = qry, fragment = frag\<rparr>"
    by (simp_all split: if_splits)
  have nl: "c \<in> set nl \<Longrightarrow> c \<notin> set ''/?#'' \<and> c \<in> set url3" for c
    using n splitnetloc_netloc [of c url3] by (cases sl) auto
  have u4: "c \<in> set url4 \<Longrightarrow> c \<in> set url3" for c
    using n splitnetloc_rest [of c url3] by (cases sl) auto
  have br: "netloc_brackets_ok chk nl"
    using ok n by (cases sl) (auto simp: netloc_brackets_ok_def)
  have "plain_name nl"
    unfolding plain_name_def list_all_iff using nl u3 by auto
  then show "plain_host chk (netloc p)"
    using br by (simp add: p plain_host_def)
  have "c \<in> set url6 \<Longrightarrow> c \<noteq> CHR ''?'' \<and> c \<noteq> CHR ''#'' \<and> c \<in> set url3" for c
    using split_query_path [of c url5] split_fragment_path [of c url4] q f u4 [of c] by auto
  then have "plain_path url6"
    unfolding plain_path_def list_all_iff using u3 by auto
  then show "plain_path (path p)"
    by (simp add: p)
qed

lemma plain_path_token:
  assumes "plain_path s" and "t \<in> set (split_on CHR ''/'' s)"
  shows "plain_name t"
proof -
  have "CHR ''/'' \<notin> set t" and "set t \<subseteq> set s"
    using split_on_tokens assms(2) by blast+
  then show ?thesis
    using assms(1) unfolding plain_path_def plain_name_def list_all_iff by auto
qed

section \<open>Rendering and parsing a profile URL\<close>

lemma html_url_None:
  "html_url c None =
     ''https://'' @ instance_c c @ CHR ''/'' # (if is_kbin c then ''m/'' else ''c/'') @ name_c c"
  by (simp add: html_url_def resolve_sort_by_def urlunsplit_def uses_netloc_def)

lemma path_tokens_two:
  assumes "plain_name n" and "a \<noteq> CHR ''/''"
  shows "drop 1 (split_on CHR ''/'' (CHR ''/'' # a # CHR ''/'' # n)) = [[a], n]"
  using plain_name_no_delim [OF assms(1)] assms(2) by (simp add: split_on_no_sep)

lemma from_url_https:
  assumes h: "plain_host chk h" and n: "plain_name n" and a: "a = CHR ''c'' \<or> a = CHR ''m''"
  shows "from_url chk (PyStr (''https://'' @ h @ CHR ''/'' # a # CHR ''/'' # n)) i t d =
           Inr \<lparr>instance_c = h, name_c = n, id_c = i, title_c = t,
                description_c = d, is_kbin = (a = CHR ''m'')\<rparr>"
proof -
  have p: "plain_path (a # CHR ''/'' # n)"
    unfolding plain_name_path [OF n] using a
    by (auto simp: plain_path_def UNSAFE_URL_BYTES_TO_REMOVE_def)
  have tk: "drop 1 (split_on CHR ''/'' (CHR ''/'' # a # CHR ''/'' # n)) = [[a], n]"
    using path_tokens_two [OF n] a by auto
  have "from_url chk (PyStr (''https://'' @ h @ CHR ''/'' # a # CHR ''/'' # n)) i t d =
          (case py_index [[a], n] 0 of
             Inl e \<Rightarrow> Inl e
           | Inr t0 \<Rightarrow>
               (case (if t0 = ''c'' then Inr False
                      else if t0 = ''m'' then Inr True
                      else Inl (ValueError (NotLemmyCommunityUrl
                                  (''https://'' @ h @ CHR ''/'' # a # CHR ''/'' # n)))) of
                  Inl e \<Rightarrow> Inl e
                | Inr kb \<Rightarrow>
                    (case py_index [[a], n] 1 of
                       Inl e \<Rightarrow> Inl e
                     | Inr t1 \<Rightarrow>
                         Inr \<lparr>instance_c = h, name_c = t1, id_c = i, title_c = t,
                              description_c = d, is_kbin = kb\<rparr>)))"
    unfolding from_url_def pyval.case urlsplit_https_plain [OF h p] sum.case Let_def
      split_result.select_convs tk ..
  also have "\<dots> = Inr \<lparr>instance_c = h, name_c = n, id_c = i, title_c = t,
                description_c = d, is_kbin = (a = CHR ''m'')\<rparr>"
    using a by (auto simp: py_index_def)
  finally show ?thesis .
qed

lemma from_url_html_url:
  assumes "url_safe chk c"
  shows "from_url chk (PyStr (html_url c None)) i t d =
           Inr \<lparr>instance_c = instance_c c, name_c = name_c c, id_c = i, title_c = t,
                description_c = d, is_kbin = is_kbin c\<rparr>"
proof -
  have h: "plain_host chk (instance_c c)" and n: "plain_name (name_c c)"
    using assms by (simp_all add: url_safe_def)
  show ?thesis
  proof (cases "is_kbin c")
    case True
    then show ?thesis
      using from_url_https [OF h n, of "CHR ''m''" i t d] by (simp add: html_url_None)
  next
    case False
    then show ?thesis
      using from_url_https [OF h n, of "CHR ''c''" i t d] by (simp add: html_url_None)
  qed
qed

text \<open>
  What \<open>from_url\<close> does for a URL that splits and whose path has two segments or more:
  the first segment decides between the two variants and the \<open>ValueError\<close>.
\<close>

lemma from_url_two_segments:
  assumes "urlsplit chk url = Inr parsed"
    and "drop 1 (split_on CHR ''/'' (path parsed)) = t0 # t1 # ts"
  shows "from_url chk (PyStr url) i t d =
           (if t0 = ''c'' \<or> t0 = ''m''
            then Inr \<lparr>instance_c = netloc parsed, name_c = t1, id_c = i, title_c = t,
                      description_c = d, is_kbin = (t0 = ''m'')\<rparr>
            else Inl (ValueError (NotLemmyCommunityUrl url)))"
  using assms by (simp add: from_url_def py_index_def Let_def)

lemma from_url_one_segment:
  assumes "urlsplit chk url = Inr parsed"
    and "drop 1 (split_on CHR ''/'' (path parsed)) = [t0]"
  shows "from_url chk (PyStr url) i t d =
           (if t0 = ''c'' \<or> t0 = ''m'' then Inl IndexError
            else Inl (ValueError (NotLemmyCommunityUrl url)))"
  using assms by (simp add: from_url_def py_index_def Let_def)

lemma from_url_no_segment:
  assumes "urlsplit chk url = Inr parsed"
    and "drop 1 (split_on CHR ''/'' (path parsed)) = []"
  shows "from_url chk (PyStr url) i t d = Inl IndexError"
  using assms by (simp add: from_url_def py_index_def Let_def)

lemma from_url_urlsplit:
  assumes "from_url chk (PyStr u) i t d = Inr c"
  shows "\<exists>p. urlsplit chk u = Inr p"
proof (cases "urlsplit chk u")
  case (Inl e)
  with assms show ?thesis by (simp add: from_url_def)
next
  case (Inr p)
  then show ?thesis by simp
qed

text \<open>Every community that \<open>from_url\<close> returns has a plain host and a plain name.\<close>

lemma from_url_url_safe:
  assumes "from_url chk (PyStr u) i t d = Inr c"
  shows "url_safe chk c"
proof -
  obtain p where p: "urlsplit chk u = Inr p"
    using from_url_urlsplit [OF assms] by blast
  let ?tk = "drop 1 (split_on CHR ''/'' (path p))"
  show ?thesis
  proof (cases ?tk)
    case Nil
    with assms from_url_no_segment [OF p] show ?thesis by simp
  next
    case (Cons t0 rest)
    note t0 = this
    show ?thesis
    proof (cases rest)
      case Nil
      with assms t0 from_url_one_segment [OF p, of t0 i t d] show ?thesis
        by (simp split: if_splits)
    next
      case (Cons t1 ts)
      with t0 have tk: "?tk = t0 # t1 # ts" by simp
      have c: "instance_c c = netloc p \<and> name_c c = t1"
        using assms from_url_two_segments [OF p tk, of i t d] by (auto split: if_splits)
      have "t1 \<in> set ?tk"
        unfolding tk by simp
      then have "t1 \<in> set (split_on CHR ''/'' (path p))"
        by (rule in_set_dropD)
      then have "plain_name t1"
        using plain_path_token urlsplit_parts(2) [OF p] by blast
      then show ?thesis
        using urlsplit_parts(1) [OF p] c by (simp add: url_safe_def)
    qed
  qed
qed

lemma rendered_urls_start:
  "\<exists>rest. html_url c sort_by = ''https://'' @ instance_c c @ CHR ''/'' # rest"
  "\<exists>rest. rss_url c sort_by = ''https://'' @ instance_c c @ CHR ''/'' # rest"
  by (simp_all add: html_url_def rss_url_def urlunsplit_def uses_netloc_def Let_def
      split: option.splits sum.splits)

lemma urlsplit_https_host:
  assumes "plain_host chk h"
  shows "\<exists>p. urlsplit chk (''https://'' @ h @ CHR ''/'' # rest) = Inr p
             \<and> scheme p = ''https'' \<and> netloc p = h"
  unfolding urlsplit_https [OF assms] by (simp split: prod.splits)

lemma rendered_urls_parse_back:
  assumes "plain_host chk (instance_c c)"
  shows "\<exists>p. urlsplit chk (html_url c sort_by) = Inr p \<and> scheme p = ''https''
            \<and> netloc p = instance_c c"
    and "\<exists>p. urlsplit chk (rss_url c sort_by) = Inr p \<and> scheme p = ''https''
            \<and> netloc p = instance_c c"
  using rendered_urls_start [of c sort_by] urlsplit_https_host [OF assms] by metis+

section \<open>Parsing a feed URL\<close>

lemma urlsplit_error:
  assumes "urlsplit chk url = Inl e"
  shows "\<exists>nl. e = ValueError (InvalidNetloc nl)"
proof -
  obtain sch url3 where s: "split_scheme (clean_url url) = (sch, url3)"
    by (cases "split_scheme (clean_url url)")
  define sl where "sl \<longleftrightarrow> take 2 url3 = ''//''"
  obtain nl url4 where n: "(if sl then splitnetloc url3 else ([], url3)) = (nl, url4)"
    by (cases "if sl then splitnetloc url3 else ([], url3)")
  obtain url5 frag where f: "split_fragment url4 = (url5, frag)"
    by (cases "split_fragment url4")
  obtain url6 qry where q: "split_query url5 = (url6, qry)"
    by (cases "split_query url5")
  have "urlsplit chk url =
          (if sl \<and> \<not> netloc_brackets_ok chk nl then Inl (ValueError (InvalidNetloc nl))
           else Inr \<lparr>scheme = sch, netloc = nl, path = url6, query = qry, fragment = frag\<rparr>)"
    unfolding urlsplit_def s prod.case sl_def [symmetric] n f q ..
  with assms show ?thesis
    by (auto split: if_splits)
qed

text \<open>
  What \<open>from_feed_url\<close> does with a URL that splits, by the pieces of the path that
  follow its first slash.
\<close>

lemma from_feed_url_tokens:
  assumes "urlsplit chk url = Inr p"
  shows "from_feed_url chk (PyStr url) =
           (case drop 1 (split_on CHR ''/'' (path p)) of
              [] \<Rightarrow> Inl IndexError
            | t0 # r1 \<Rightarrow>
                if t0 \<noteq> ''feeds'' then Inl (ValueError (NotLemmyFeedUrl url))
                else
                  (case r1 of
                     [] \<Rightarrow> Inl IndexError
                   | t1 # r2 \<Rightarrow>
                       if t1 \<noteq> ''c'' then Inl (ValueError (NotLemmyCommunityFeedUrl url))
                       else
                         (case r2 of
                            [] \<Rightarrow> Inl IndexError
                          | t2 # r3 \<Rightarrow>
                              Inr \<lparr>instance_c = netloc p, name_c = fst (splitext t2),
                                   id_c = PyNone, title_c = PyNone, description_c = PyNone,
                                   is_kbin = False\<rparr>)))"
proof (cases "drop 1 (split_on CHR ''/'' (path p))")
  case Nil
  with assms show ?thesis
    by (simp add: from_feed_url_def py_index_def Let_def)
next
  case (Cons t0 r1)
  note c0 = this
  show ?thesis
  proof (cases r1)
    case Nil
    with assms c0 show ?thesis
      by (simp add: from_feed_url_def py_index_def Let_def)
  next
    case (Cons t1 r2)
    note c1 = this
    show ?thesis
    proof (cases r2)
      case Nil
      with assms c0 c1 show ?thesis
        by (simp add: from_feed_url_def py_index_def Let_def)
    next
      case (Cons t2 r3)
      with assms c0 c1 show ?thesis
        by (simp add: from_feed_url_def py_index_def Let_def)
    qed
  qed
qed

lemma from_feed_url_urlsplit_error:
  "urlsplit chk url = Inl e \<Longrightarrow> from_feed_url chk (PyStr url) = Inl e"
  by (simp add: from_feed_url_def)

section \<open>Building and flattening\<close>

lemma walk_outlines_leaves:
  "list_all (\<lambda>ol. type_attr ol \<noteq> PyStr ''category'') ols \<Longrightarrow> walk_outlines ols = ols"
proof (induction ols)
  case Nil
  then show ?case by simp
next
  case (Cons ol ols)
  then show ?case by (cases ol) simp
qed

lemma opml_loop_flat:
  "opml_loop False s cs (body, cats) = (body @ map (\<lambda>c. to_outline c s False) cs, cats)"
  by (induction cs arbitrary: body) simp_all

lemma from_outline_to_outline:
  assumes "url_safe chk c"
  shows "from_outline chk (to_outline c None b) =
           Inr \<lparr>instance_c = instance_c c, name_c = name_c c, id_c = PyNone, title_c = PyNone,
                description_c = PyNone, is_kbin = is_kbin c\<rparr>"
  by (simp add: from_outline_def to_outline_def from_url_html_url [OF assms])

lemma from_opml_loop_to_outline:
  assumes "list_all (url_safe chk) cs"
  shows "from_opml_loop chk (map (\<lambda>c. to_outline c None b) cs) (acc, failed) =
           Inr (acc @ map (\<lambda>c. \<lparr>instance_c = instance_c c, name_c = name_c c, id_c = PyNone,
                                 title_c = PyNone, description_c = PyNone, is_kbin = is_kbin c\<rparr>) cs,
                failed)"
  using assms
proof (induction cs arbitrary: acc)
  case Nil
  then show ?case by simp
next
  case (Cons c cs)
  then show ?case by (simp add: from_outline_to_outline)
qed

subsection \<open>Grouping by host\<close>

lemma hosts_first_seen_snoc:
  "hosts_first_seen (cs @ [c]) =
     (if instance_c c \<in> set (hosts_first_seen cs) then hosts_first_seen cs
      else hosts_first_seen cs @ [instance_c c])"
  by (simp add: hosts_first_seen_def)

lemma hosts_first_seen_distinct: "distinct (hosts_first_seen cs)"
  by (simp add: hosts_first_seen_def)

lemma hosts_first_seen_set: "set (hosts_first_seen cs) = instance_c ` set cs"
  by (simp add: hosts_first_seen_def)

text \<open>The first host comes first, and the others follow in their own first-seen order.\<close>

lemma hosts_first_seen_Cons:
  "hosts_first_seen (c # cs) = instance_c c # removeAll (instance_c c) (hosts_first_seen cs)"
proof (induction cs rule: rev_induct)
  case Nil
  then show ?case by (simp add: hosts_first_seen_def)
next
  case (snoc x xs)
  have "hosts_first_seen (c # xs @ [x]) = hosts_first_seen ((c # xs) @ [x])"
    by simp
  also have "\<dots> = (if instance_c x \<in> set (hosts_first_seen (c # xs)) then hosts_first_seen (c # xs)
                    else hosts_first_seen (c # xs) @ [instance_c x])"
    by (rule hosts_first_seen_snoc)
  finally show ?case
    using snoc by (auto simp: hosts_first_seen_snoc hosts_first_seen_set)
qed

lemma category_node_snoc:
  "category_node s (cs @ [c]) k =
     (if k = instance_c c then append_outline (category_node s cs k) (to_outline c s False)
      else category_node s cs k)"
  by (simp add: category_node_def append_outline_def)

lemma category_node_new:
  "h \<notin> instance_c ` set cs \<Longrightarrow>
     category_node s cs h = Outline (PyStr ''category'') h PyNone PyNone PyNone PyNone []"
  by (auto simp: category_node_def filter_empty_conv)

lemma map_of_keyed: "map_of (map (\<lambda>k. (k, F k)) hs) h = (if h \<in> set hs then Some (F h) else None)"
  by (induction hs) auto

lemma update_keyed:
  "distinct hs \<Longrightarrow>
     AList.update h v (map (\<lambda>k. (k, F k)) hs) =
       (if h \<in> set hs then map (\<lambda>k. (k, if k = h then v else F k)) hs
        else map (\<lambda>k. (k, F k)) hs @ [(h, v)])"
  by (induction hs) auto

text \<open>One turn of the loop takes the grouping of the communities seen so far to the next.\<close>

lemma grouped_step:
  "AList.update (instance_c c)
     (append_outline
        (case map_of (grouped s cs) (instance_c c) of
           Some p \<Rightarrow> p
         | None \<Rightarrow> Outline (PyStr ''category'') (instance_c c) PyNone PyNone PyNone PyNone [])
        (to_outline c s False))
     (grouped s cs) = grouped s (cs @ [c])"
proof -
  let ?h = "instance_c c"
  have parent: "(case map_of (grouped s cs) ?h of
           Some p \<Rightarrow> p
         | None \<Rightarrow> Outline (PyStr ''category'') ?h PyNone PyNone PyNone PyNone [])
        = category_node s cs ?h"
    by (simp add: grouped_def map_of_keyed hosts_first_seen_set category_node_new)
  show ?thesis
    unfolding parent
    by (simp add: grouped_def update_keyed [OF hosts_first_seen_distinct]
        hosts_first_seen_snoc category_node_snoc)
qed

lemma opml_loop_grouped:
  "opml_loop True s cs (body, grouped s seen) = (body, grouped s (seen @ cs))"
proof (induction cs arbitrary: seen)
  case Nil
  then show ?case by simp
next
  case (Cons c cs)
  have "opml_loop True s (c # cs) (body, grouped s seen) =
          opml_loop True s cs (body, grouped s (seen @ [c]))"
    by (simp add: grouped_step Let_def)
  then show ?case using Cons [of "seen @ [c]"] by simp
qed

section \<open>The claims\<close>

text \<open>
  C1. Building a document from a list of communities without grouping and without a
  sort name, and flattening it, gives the same communities in the same order (same host,
  name and variant; the identifier, title and description are not in the document's
  URLs and come back as \<open>None\<close>) and no failure, provided every host and name is free
  of the characters that delimit URL components.
\<close>

theorem build_flatten_roundtrip:
  assumes "list_all (url_safe chk) communities"
  shows "from_opml chk (fst (subscribed_to_opml False None communities)) =
           Inr (map (\<lambda>c. \<lparr>instance_c = instance_c c, name_c = name_c c, id_c = PyNone,
                           title_c = PyNone, description_c = PyNone, is_kbin = is_kbin c\<rparr>)
                  communities, 0)"
proof -
  have "walk_outlines (map (\<lambda>c. to_outline c None False) communities)
          = map (\<lambda>c. to_outline c None False) communities"
    by (rule walk_outlines_leaves) (simp add: list_all_iff to_outline_def)
  then show ?thesis
    using from_opml_loop_to_outline [OF assms, of False "[]" 0]
    by (simp add: from_opml_def subscribed_to_opml_def opml_loop_flat)
qed

theorem build_flatten_roundtrip_witness:
  "list_all (url_safe accept_bracketed)
     [\<lparr>instance_c = ''lemmy.ml'', name_c = ''rust'', id_c = PyInt 7, title_c = PyStr ''Rust'',
       description_c = PyNone, is_kbin = False\<rparr>,
      \<lparr>instance_c = ''kbin.social'', name_c = ''tech'', id_c = PyNone, title_c = PyNone,
       description_c = PyNone, is_kbin = True\<rparr>]
   \<and> from_opml accept_bracketed (fst (subscribed_to_opml False None
        [\<lparr>instance_c = ''lemmy.ml'', name_c = ''rust'', id_c = PyInt 7, title_c = PyStr ''Rust'',
          description_c = PyNone, is_kbin = False\<rparr>,
         \<lparr>instance_c = ''kbin.social'', name_c = ''tech'', id_c = PyNone, title_c = PyNone,
          description_c = PyNone, is_kbin = True\<rparr>]))
      = Inr ([\<lparr>instance_c = ''lemmy.ml'', name_c = ''rust'', id_c = PyNone, title_c = PyNone,
               description_c = PyNone, is_kbin = False\<rparr>,
              \<lparr>instance_c = ''kbin.social'', name_c = ''tech'', id_c = PyNone, title_c = PyNone,
               description_c = PyNone, is_kbin = True\<rparr>], 0)"
proof -
  have safe: "list_all (url_safe accept_bracketed)
     [\<lparr>instance_c = ''lemmy.ml'', name_c = ''rust'', id_c = PyInt 7, title_c = PyStr ''Rust'',
       description_c = PyNone, is_kbin = False\<rparr>,
      \<lparr>instance_c = ''kbin.social'', name_c = ''tech'', id_c = PyNone, title_c = PyNone,
       description_c = PyNone, is_kbin = True\<rparr>]"
    by (simp add: url_safe_def plain_host_def plain_name_def netloc_brackets_ok_def
        UNSAFE_URL_BYTES_TO_REMOVE_def)
  show ?thesis
    using safe build_flatten_roundtrip [OF safe] by simp
qed

text \<open>
  A community whose name has a slash does not come back: the document built from
  \<open>!a/b@example.org\<close> flattens to the community \<open>a\<close>.
\<close>

theorem build_flatten_roundtrip_counterexample:
  "from_opml accept_bracketed (fst (subscribed_to_opml False None
      [\<lparr>instance_c = ''example.org'', name_c = ''a/b'', id_c = PyNone, title_c = PyNone,
        description_c = PyNone, is_kbin = False\<rparr>]))
    = Inr ([\<lparr>instance_c = ''example.org'', name_c = ''a'', id_c = PyNone, title_c = PyNone,
             description_c = PyNone, is_kbin = False\<rparr>], 0)"
  by code_simp

text \<open>
  C2. Flattening is meant to count a leaf that cannot be resolved and go on. A leaf whose
  profile URL has no path makes \<open>from_url\<close> raise \<open>IndexError\<close>, which neither
  \<open>from_outline\<close> nor \<open>from_opml\<close> catches: the whole flattening ends with that
  exception, although the leaf carries a good feed URL.
\<close>

theorem from_opml_aborts_on_leaf:
  "from_opml accept_bracketed
     [Outline (PyStr ''rss'') ''!rust@lemmy.ml'' PyNone PyNone
        (PyStr ''https://lemmy.ml/feeds/c/rust.xml'') (PyStr ''https://lemmy.ml/c/rust'') [],
      Outline (PyStr ''rss'') ''!foo@example.org'' PyNone PyNone
        (PyStr ''https://example.org/feeds/c/foo.xml'') (PyStr ''https://example.org'') []]
     = Inl IndexError"
  by code_simp

text \<open>
  A leaf without a profile URL has \<open>None\<close> there. Then \<open>from_url\<close> raises \<open>TypeError\<close>,
  which is not caught either, whatever the feed URL is.
\<close>

lemma from_opml_aborts_without_html_url:
  "from_opml chk (Outline ty tx ti de xu PyNone [] # rest) =
     (if ty = PyStr ''category'' then from_opml chk rest else Inl TypeError)"
  by (simp add: from_opml_def from_outline_def from_url_def non_str_url_error_def
      caught_by_from_outline_def)

text \<open>
  C3. A profile URL whose path is not of a community is meant to be refused with the
  \<open>ValueError\<close> "URL does not appear to be a Lemmy community URL". A URL without a path
  is refused with \<open>IndexError\<close> instead, from \<open>path_tokens[0]\<close>.
\<close>

theorem from_url_no_path_index_error:
  "from_url accept_bracketed (PyStr ''https://example.org'') PyNone PyNone PyNone
     = Inl IndexError"
  by code_simp

text \<open>
  C4. Parsing a feed URL succeeds exactly when the URL splits and the pieces of its path
  that follow the first slash (\<open>path.split('/')[1:]\<close>) begin with \<open>feeds\<close>, \<open>c\<close> and a
  third piece. The name is then the third piece without its extension, whatever the
  extension is, the host is the netloc and the variant is the standard one. Parsing
  fails with a \<open>ValueError\<close> when the URL does not split, when the first piece is not
  \<open>feeds\<close>, and when the first piece is \<open>feeds\<close> and the second is not \<open>c\<close>.
\<close>

theorem from_feed_url_shape:
  "(urlsplit chk url = Inr p
      \<and> drop 1 (split_on CHR ''/'' (path p)) = ''feeds'' # ''c'' # t2 # ts \<longrightarrow>
        from_feed_url chk (PyStr url) =
          Inr \<lparr>instance_c = netloc p, name_c = fst (splitext t2), id_c = PyNone,
               title_c = PyNone, description_c = PyNone, is_kbin = False\<rparr>)
   \<and> ((\<exists>c. from_feed_url chk (PyStr url) = Inr c) \<longrightarrow>
        (\<exists>q s2 ss. urlsplit chk url = Inr q
           \<and> drop 1 (split_on CHR ''/'' (path q)) = ''feeds'' # ''c'' # s2 # ss))
   \<and> (urlsplit chk url = Inr p
        \<and> drop 1 (split_on CHR ''/'' (path p)) = t0 # ts \<and> t0 \<noteq> ''feeds'' \<longrightarrow>
        from_feed_url chk (PyStr url) = Inl (ValueError (NotLemmyFeedUrl url)))
   \<and> (urlsplit chk url = Inr p
        \<and> drop 1 (split_on CHR ''/'' (path p)) = ''feeds'' # t1 # ts \<and> t1 \<noteq> ''c'' \<longrightarrow>
        from_feed_url chk (PyStr url) = Inl (ValueError (NotLemmyCommunityFeedUrl url)))
   \<and> (urlsplit chk url = Inl e \<longrightarrow>
        from_feed_url chk (PyStr url) = Inl e \<and> (\<exists>nl. e = ValueError (InvalidNetloc nl)))"
proof (intro conjI impI)
  assume "urlsplit chk url = Inr p
      \<and> drop 1 (split_on CHR ''/'' (path p)) = ''feeds'' # ''c'' # t2 # ts"
  then show "from_feed_url chk (PyStr url) =
          Inr \<lparr>instance_c = netloc p, name_c = fst (splitext t2), id_c = PyNone,
               title_c = PyNone, description_c = PyNone, is_kbin = False\<rparr>"
    using from_feed_url_tokens [of chk url p] by simp
next
  assume ok: "\<exists>c. from_feed_url chk (PyStr url) = Inr c"
  show "\<exists>q s2 ss. urlsplit chk url = Inr q
           \<and> drop 1 (split_on CHR ''/'' (path q)) = ''feeds'' # ''c'' # s2 # ss"
  proof (cases "urlsplit chk url")
    case (Inl e')
    with ok from_feed_url_urlsplit_error [of chk url e'] show ?thesis by simp
  next
    case (Inr q)
    have "\<exists>s2 ss. drop 1 (split_on CHR ''/'' (path q)) = ''feeds'' # ''c'' # s2 # ss"
      using ok unfolding from_feed_url_tokens [OF Inr]
      by (auto split: list.splits if_splits)
    with Inr show ?thesis by blast
  qed
next
  assume "urlsplit chk url = Inr p
        \<and> drop 1 (split_on CHR ''/'' (path p)) = t0 # ts \<and> t0 \<noteq> ''feeds''"
  then show "from_feed_url chk (PyStr url) = Inl (ValueError (NotLemmyFeedUrl url))"
    using from_feed_url_tokens [of chk url p] by simp
next
  assume "urlsplit chk url = Inr p
        \<and> drop 1 (split_on CHR ''/'' (path p)) = ''feeds'' # t1 # ts \<and> t1 \<noteq> ''c''"
  then show "from_feed_url chk (PyStr url) = Inl (ValueError (NotLemmyCommunityFeedUrl url))"
    using from_feed_url_tokens [of chk url p] by simp
next
  assume "urlsplit chk url = Inl e"
  then show "from_feed_url chk (PyStr url) = Inl e"
    by (rule from_feed_url_urlsplit_error)
next
  assume "urlsplit chk url = Inl e"
  then show "\<exists>nl. e = ValueError (InvalidNetloc nl)"
    by (rule urlsplit_error)
qed

theorem from_feed_url_shape_witness:
  "urlsplit accept_bracketed ''https://lemmy.ml/feeds/c/rust.xml''
     = Inr \<lparr>scheme = ''https'', netloc = ''lemmy.ml'', path = ''/feeds/c/rust.xml'',
            query = [], fragment = []\<rparr>
   \<and> drop 1 (split_on CHR ''/'' ''/feeds/c/rust.xml'') = [''feeds'', ''c'', ''rust.xml'']
   \<and> from_feed_url accept_bracketed (PyStr ''https://lemmy.ml/feeds/c/rust.xml'')
       = Inr \<lparr>instance_c = ''lemmy.ml'', name_c = ''rust'', id_c = PyNone,
              title_c = PyNone, description_c = PyNone, is_kbin = False\<rparr>
   \<and> urlsplit accept_bracketed ''https://example.org/about''
     = Inr \<lparr>scheme = ''https'', netloc = ''example.org'', path = ''/about'',
            query = [], fragment = []\<rparr>
   \<and> drop 1 (split_on CHR ''/'' ''/about'') = [''about'']
   \<and> from_feed_url accept_bracketed (PyStr ''https://example.org/about'')
       = Inl (ValueError (NotLemmyFeedUrl ''https://example.org/about''))"
proof -
  let ?p = "\<lparr>scheme = ''https'', netloc = ''lemmy.ml'', path = ''/feeds/c/rust.xml'',
            query = [], fragment = []\<rparr>"
  let ?q = "\<lparr>scheme = ''https'', netloc = ''example.org'', path = ''/about'',
            query = [], fragment = []\<rparr>"
  have u: "urlsplit accept_bracketed ''https://lemmy.ml/feeds/c/rust.xml'' = Inr ?p"
    by code_simp
  have tk: "drop 1 (split_on CHR ''/'' ''/feeds/c/rust.xml'') = [''feeds'', ''c'', ''rust.xml'']"
    by code_simp
  have tk': "drop 1 (split_on CHR ''/'' (path ?p)) = ''feeds'' # ''c'' # ''rust.xml'' # []"
    by code_simp
  have sx: "fst (splitext ''rust.xml'') = ''rust''"
    by code_simp
  have v: "urlsplit accept_bracketed ''https://example.org/about'' = Inr ?q"
    by code_simp
  have tq: "drop 1 (split_on CHR ''/'' ''/about'') = [''about'']"
    by code_simp
  have tq': "drop 1 (split_on CHR ''/'' (path ?q)) = ''about'' # []"
    by code_simp
  have ne: "''about'' \<noteq> ''feeds''"
    by simp
  have 1: "from_feed_url accept_bracketed (PyStr ''https://lemmy.ml/feeds/c/rust.xml'')
       = Inr \<lparr>instance_c = ''lemmy.ml'', name_c = ''rust'', id_c = PyNone,
              title_c = PyNone, description_c = PyNone, is_kbin = False\<rparr>"
    using from_feed_url_shape [where chk = accept_bracketed
        and url = "''https://lemmy.ml/feeds/c/rust.xml''" and p = ?p and ?t2.0 = "''rust.xml''"
        and ts = "[]"] u tk' sx
    by simp
  have 2: "from_feed_url accept_bracketed (PyStr ''https://example.org/about'')
       = Inl (ValueError (NotLemmyFeedUrl ''https://example.org/about''))"
    using from_feed_url_shape [where chk = accept_bracketed
        and url = "''https://example.org/about''" and p = ?q and ?t0.0 = "''about''"
        and ts = "[]"] v tq' ne
    by blast
  from u tk 1 v tq 2 show ?thesis
    by (intro conjI)
qed

text \<open>
  A feed URL that does not end in \<open>.xml\<close> is accepted all the same: the extension is
  not looked at. Nor is what precedes the first slash of the path: a URL without scheme
  and host whose path is \<open>x/feeds/c/rust.xml\<close> is accepted too.
\<close>

theorem from_feed_url_counterexample:
  "from_feed_url accept_bracketed (PyStr ''https://lemmy.ml/feeds/c/rust.json'')
     = Inr \<lparr>instance_c = ''lemmy.ml'', name_c = ''rust'', id_c = PyNone,
            title_c = PyNone, description_c = PyNone, is_kbin = False\<rparr>
   \<and> from_feed_url accept_bracketed (PyStr ''x/feeds/c/rust.xml'')
     = Inr \<lparr>instance_c = [], name_c = ''rust'', id_c = PyNone,
            title_c = PyNone, description_c = PyNone, is_kbin = False\<rparr>"
  by code_simp

text \<open>
  C5. Parsing the profile URL rendered for a community without a sort name gives a
  community with the same host, name and variant, provided host and name are free of
  the characters that delimit URL components.
\<close>

theorem profile_url_roundtrip:
  assumes "url_safe chk c"
  shows "\<exists>c'. from_url chk (PyStr (html_url c None)) PyNone PyNone PyNone = Inr c'
           \<and> instance_c c' = instance_c c \<and> name_c c' = name_c c \<and> is_kbin c' = is_kbin c"
  by (simp add: from_url_html_url [OF assms])

theorem profile_url_roundtrip_witness:
  "url_safe accept_bracketed
     \<lparr>instance_c = ''kbin.social'', name_c = ''tech'', id_c = PyInt 5, title_c = PyNone,
      description_c = PyNone, is_kbin = True\<rparr>
   \<and> (\<exists>c'. from_url accept_bracketed (PyStr ''https://kbin.social/m/tech'') PyNone PyNone PyNone
              = Inr c'
          \<and> instance_c c' = ''kbin.social'' \<and> name_c c' = ''tech'' \<and> is_kbin c')"
proof -
  let ?c = "\<lparr>instance_c = ''kbin.social'', name_c = ''tech'', id_c = PyInt 5, title_c = PyNone,
      description_c = PyNone, is_kbin = True\<rparr>"
  have safe: "url_safe accept_bracketed ?c"
    by (simp add: url_safe_def plain_host_def plain_name_def netloc_brackets_ok_def
        UNSAFE_URL_BYTES_TO_REMOVE_def)
  have h: "html_url ?c None = ''https://kbin.social/m/tech''"
    by (simp add: html_url_None)
  show ?thesis
    using safe profile_url_roundtrip [OF safe] by (simp add: h)
qed

text \<open>
  The community \<open>!a/b@example.org\<close> is rendered as \<open>https://example.org/c/a/b\<close>, which
  parses to the community \<open>a\<close>.
\<close>

theorem profile_url_roundtrip_counterexample:
  "html_url \<lparr>instance_c = ''example.org'', name_c = ''a/b'', id_c = PyNone, title_c = PyNone,
      description_c = PyNone, is_kbin = False\<rparr> None = ''https://example.org/c/a/b''
   \<and> from_url accept_bracketed (PyStr ''https://example.org/c/a/b'') PyNone PyNone PyNone
      = Inr \<lparr>instance_c = ''example.org'', name_c = ''a'', id_c = PyNone, title_c = PyNone,
             description_c = PyNone, is_kbin = False\<rparr>"
  by code_simp

text \<open>
  C6. When the sort name cannot be resolved for a community (it is not in the table, or
  the table has no token for the community's variant), both renderers return the URL
  they return without a sort name.
\<close>

theorem unsupported_sort_falls_back:
  assumes "resolve_sort_by c (Some s) = Inl e"
  shows "html_url c (Some s) = html_url c None \<and> rss_url c (Some s) = rss_url c None"
proof -
  have n: "resolve_sort_by c None = Inr None"
    by (simp add: resolve_sort_by_def)
  show ?thesis
    by (simp add: html_url_def rss_url_def assms n)
qed

theorem unsupported_sort_falls_back_witness:
  "resolve_sort_by \<lparr>instance_c = ''kbin.social'', name_c = ''tech'', id_c = PyNone,
      title_c = PyNone, description_c = PyNone, is_kbin = True\<rparr> (Some ''old'')
     = Inl (ValueError (SortingNotSupported ''old'' True))
   \<and> html_url \<lparr>instance_c = ''kbin.social'', name_c = ''tech'', id_c = PyNone,
      title_c = PyNone, description_c = PyNone, is_kbin = True\<rparr> (Some ''old'')
     = ''https://kbin.social/m/tech''
   \<and> rss_url \<lparr>instance_c = ''kbin.social'', name_c = ''tech'', id_c = PyNone,
      title_c = PyNone, description_c = PyNone, is_kbin = True\<rparr> (Some ''old'')
     = ''https://kbin.social/rss?magazine=tech''"
proof -
  let ?c = "\<lparr>instance_c = ''kbin.social'', name_c = ''tech'', id_c = PyNone,
      title_c = PyNone, description_c = PyNone, is_kbin = True\<rparr>"
  have r: "resolve_sort_by ?c (Some ''old'') = Inl (ValueError (SortingNotSupported ''old'' True))"
    by (simp add: resolve_sort_by_def SORT_BY_VALUES_def)
  have h: "html_url ?c None = ''https://kbin.social/m/tech''"
    by (simp add: html_url_None)
  have f: "rss_url ?c None = ''https://kbin.social/rss?magazine=tech''"
    by code_simp
  show ?thesis
    using unsupported_sort_falls_back [OF r] r h f by simp
qed

text \<open>
  C7. With grouping, the body of the document has exactly one category outline for each
  host, in the order in which the hosts first occur, and the category of a host holds
  the leaves of the communities of that host, in the order of the list.
\<close>

theorem grouped_by_host:
  "fst (subscribed_to_opml True sort_by communities) =
     map (category_node sort_by communities) (hosts_first_seen communities)
   \<and> distinct (hosts_first_seen communities)
   \<and> set (hosts_first_seen communities) = instance_c ` set communities
   \<and> hosts_first_seen (c # communities) =
         instance_c c # removeAll (instance_c c) (hosts_first_seen communities)"
proof -
  have "grouped sort_by [] = []"
    by (simp add: grouped_def hosts_first_seen_def)
  then have "opml_loop True sort_by communities ([], []) = ([], grouped sort_by communities)"
    using opml_loop_grouped [of sort_by communities "[]" "[]"] by simp
  then have "fst (subscribed_to_opml True sort_by communities) =
     map (category_node sort_by communities) (hosts_first_seen communities)"
    by (simp add: subscribed_to_opml_def grouped_def comp_def)
  then show ?thesis
    using hosts_first_seen_distinct [of communities] hosts_first_seen_set [of communities]
      hosts_first_seen_Cons [of c communities]
    by (intro conjI)
qed

theorem grouped_by_host_witness:
  "map (\<lambda>g. (type_attr g, text_attr g, map text_attr (outlines g)))
     (fst (subscribed_to_opml True None
        [\<lparr>instance_c = ''a.example'', name_c = ''x'', id_c = PyNone, title_c = PyNone,
          description_c = PyNone, is_kbin = False\<rparr>,
         \<lparr>instance_c = ''b.example'', name_c = ''y'', id_c = PyNone, title_c = PyNone,
          description_c = PyNone, is_kbin = False\<rparr>,
         \<lparr>instance_c = ''a.example'', name_c = ''z'', id_c = PyNone, title_c = PyNone,
          description_c = PyNone, is_kbin = False\<rparr>]))
   = [(PyStr ''category'', ''a.example'', [''!x@a.example'', ''!z@a.example'']),
      (PyStr ''category'', ''b.example'', [''!y@b.example''])]"
  using grouped_by_host [of None
      "[\<lparr>instance_c = ''a.example'', name_c = ''x'', id_c = PyNone, title_c = PyNone,
          description_c = PyNone, is_kbin = False\<rparr>,
         \<lparr>instance_c = ''b.example'', name_c = ''y'', id_c = PyNone, title_c = PyNone,
          description_c = PyNone, is_kbin = False\<rparr>,
         \<lparr>instance_c = ''a.example'', name_c = ''z'', id_c = PyNone, title_c = PyNone,
          description_c = PyNone, is_kbin = False\<rparr>]"]
  by (simp add: hosts_first_seen_def category_node_def to_outline_def text_c_def)

text \<open>
  C8. Resolving a sort name that is not a key of the table fails with the
  \<open>ValueError\<close> that names it. Every key of the table has a non-empty token for at least
  one variant. The keys \<open>old\<close> and \<open>newcomments\<close> have no token for the alternate
  variant, and resolving them for such a community fails.
\<close>

theorem sort_table_lookup:
  "(s \<notin> set (map fst SORT_BY_VALUES) \<longrightarrow>
      resolve_sort_by c (Some s) = Inl (ValueError (ValueNotInSortByValues s)))
   \<and> (s \<in> set (map fst SORT_BY_VALUES) \<longrightarrow>
        (\<exists>kb tok. resolve_sort_by (c\<lparr>is_kbin := kb\<rparr>) (Some s) = Inr (Some tok) \<and> tok \<noteq> []))
   \<and> map fst SORT_BY_VALUES =
        [''top'', ''hot'', ''active'', ''new'', ''old'', ''mostcomments'', ''newcomments'']
   \<and> map_of SORT_BY_VALUES ''old'' = Some \<lparr>lemmy = Some ''Old'', kbin = None\<rparr>
   \<and> map_of SORT_BY_VALUES ''newcomments'' = Some \<lparr>lemmy = Some ''NewComments'', kbin = None\<rparr>
   \<and> (is_kbin c \<longrightarrow>
        resolve_sort_by c (Some ''old'') = Inl (ValueError (SortingNotSupported ''old'' True))
        \<and> resolve_sort_by c (Some ''newcomments'')
            = Inl (ValueError (SortingNotSupported ''newcomments'' True)))"
proof -
  have a: "s \<notin> set (map fst SORT_BY_VALUES) \<Longrightarrow> map_of SORT_BY_VALUES s = None"
    by (simp add: map_of_eq_None_iff)
  have "s \<in> set (map fst SORT_BY_VALUES) \<Longrightarrow>
        \<exists>tok. resolve_sort_by (c\<lparr>is_kbin := False\<rparr>) (Some s) = Inr (Some tok) \<and> tok \<noteq> []"
    by (auto simp: resolve_sort_by_def SORT_BY_VALUES_def)
  then have b: "s \<in> set (map fst SORT_BY_VALUES) \<Longrightarrow>
        \<exists>kb tok. resolve_sort_by (c\<lparr>is_kbin := kb\<rparr>) (Some s) = Inr (Some tok) \<and> tok \<noteq> []"
    by blast
  have k: "map fst SORT_BY_VALUES =
        [''top'', ''hot'', ''active'', ''new'', ''old'', ''mostcomments'', ''newcomments'']"
    "map_of SORT_BY_VALUES ''old'' = Some \<lparr>lemmy = Some ''Old'', kbin = None\<rparr>"
    "map_of SORT_BY_VALUES ''newcomments'' = Some \<lparr>lemmy = Some ''NewComments'', kbin = None\<rparr>"
    by (simp_all add: SORT_BY_VALUES_def)
  have o: "is_kbin c \<Longrightarrow>
        resolve_sort_by c (Some ''old'') = Inl (ValueError (SortingNotSupported ''old'' True))
        \<and> resolve_sort_by c (Some ''newcomments'')
            = Inl (ValueError (SortingNotSupported ''newcomments'' True))"
    by (simp add: resolve_sort_by_def k)
  have n: "s \<notin> set (map fst SORT_BY_VALUES) \<Longrightarrow>
      resolve_sort_by c (Some s) = Inl (ValueError (ValueNotInSortByValues s))"
    using a by (simp add: resolve_sort_by_def)
  show ?thesis
    using n b k o by blast
qed

theorem sort_table_lookup_witness:
  "''bogus'' \<notin> set (map fst SORT_BY_VALUES)
   \<and> resolve_sort_by \<lparr>instance_c = ''kbin.social'', name_c = ''tech'', id_c = PyNone,
        title_c = PyNone, description_c = PyNone, is_kbin = True\<rparr> (Some ''bogus'')
       = Inl (ValueError (ValueNotInSortByValues ''bogus''))
   \<and> ''old'' \<in> set (map fst SORT_BY_VALUES)
   \<and> (\<exists>kb tok. resolve_sort_by \<lparr>instance_c = ''kbin.social'', name_c = ''tech'', id_c = PyNone,
        title_c = PyNone, description_c = PyNone, is_kbin = kb\<rparr> (Some ''old'') = Inr (Some tok)
        \<and> tok \<noteq> [])
   \<and> resolve_sort_by \<lparr>instance_c = ''kbin.social'', name_c = ''tech'', id_c = PyNone,
        title_c = PyNone, description_c = PyNone, is_kbin = True\<rparr> (Some ''old'')
       = Inl (ValueError (SortingNotSupported ''old'' True))"
proof -
  let ?c = "\<lparr>instance_c = ''kbin.social'', name_c = ''tech'', id_c = PyNone,
        title_c = PyNone, description_c = PyNone, is_kbin = True\<rparr>"
  have out: "''bogus'' \<notin> set (map fst SORT_BY_VALUES)"
    and inn: "''old'' \<in> set (map fst SORT_BY_VALUES)"
    and kb: "is_kbin ?c"
    by (simp_all add: SORT_BY_VALUES_def)
  have 1: "resolve_sort_by ?c (Some ''bogus'') = Inl (ValueError (ValueNotInSortByValues ''bogus''))"
    using sort_table_lookup [of "''bogus''" ?c] out by blast
  have "\<exists>kb tok. resolve_sort_by (?c\<lparr>is_kbin := kb\<rparr>) (Some ''old'') = Inr (Some tok) \<and> tok \<noteq> []"
    using sort_table_lookup [of "''old''" ?c] inn by blast
  then have 2: "\<exists>kb tok. resolve_sort_by \<lparr>instance_c = ''kbin.social'', name_c = ''tech'',
        id_c = PyNone, title_c = PyNone, description_c = PyNone, is_kbin = kb\<rparr> (Some ''old'')
          = Inr (Some tok) \<and> tok \<noteq> []"
    by simp
  have 3: "resolve_sort_by ?c (Some ''old'') = Inl (ValueError (SortingNotSupported ''old'' True))"
    using sort_table_lookup [of "''old''" ?c] kb by blast
  from out 1 inn 2 3 show ?thesis
    by (intro conjI)
qed

text \<open>
  C9. For an API record that has an \<open>actor_id\<close>, parsing delegates to \<open>from_url\<close> with the
  record's \<open>id\<close> and with its \<open>title\<close> and \<open>description\<close>, or \<open>None\<close> for those of the two
  that are absent; it succeeds when \<open>from_url\<close> does. The \<open>id\<close> is required: without it
  the parse fails with \<open>KeyError\<close>.
\<close>

theorem from_dict_delegates:
  assumes "data ''actor_id'' = Some url"
  shows "from_dict chk data =
           (case data ''id'' of
              None \<Rightarrow> Inl (KeyError ''id'')
            | Some ident \<Rightarrow>
                from_url chk url ident (dict_get data ''title'') (dict_get data ''description''))"
  using assms by (simp add: from_dict_def dict_item_def split: option.splits)

theorem from_dict_delegates_witness:
  "[''actor_id'' \<mapsto> PyStr ''https://lemmy.ml/c/rust'', ''id'' \<mapsto> PyInt 42,
    ''title'' \<mapsto> PyStr ''Rust''] ''actor_id'' = Some (PyStr ''https://lemmy.ml/c/rust'')
   \<and> from_dict accept_bracketed
        [''actor_id'' \<mapsto> PyStr ''https://lemmy.ml/c/rust'', ''id'' \<mapsto> PyInt 42,
         ''title'' \<mapsto> PyStr ''Rust'']
      = Inr \<lparr>instance_c = ''lemmy.ml'', name_c = ''rust'', id_c = PyInt 42,
             title_c = PyStr ''Rust'', description_c = PyNone, is_kbin = False\<rparr>"
proof -
  let ?d = "[''actor_id'' \<mapsto> PyStr ''https://lemmy.ml/c/rust'', ''id'' \<mapsto> PyInt 42,
    ''title'' \<mapsto> PyStr ''Rust'']"
  have a: "?d ''actor_id'' = Some (PyStr ''https://lemmy.ml/c/rust'')"
    by simp
  have u: "from_url accept_bracketed (PyStr ''https://lemmy.ml/c/rust'') (PyInt 42)
             (PyStr ''Rust'') PyNone
           = Inr \<lparr>instance_c = ''lemmy.ml'', name_c = ''rust'', id_c = PyInt 42,
             title_c = PyStr ''Rust'', description_c = PyNone, is_kbin = False\<rparr>"
    by code_simp
  have "from_dict accept_bracketed ?d
      = Inr \<lparr>instance_c = ''lemmy.ml'', name_c = ''rust'', id_c = PyInt 42,
             title_c = PyStr ''Rust'', description_c = PyNone, is_kbin = False\<rparr>"
    using from_dict_delegates [where data = ?d and chk = accept_bracketed, OF a] u
    by (simp add: dict_get_def)
  with a show ?thesis
    by (intro conjI)
qed

text \<open>An API record with a good \<open>actor_id\<close> and no \<open>id\<close> is refused.\<close>

theorem from_dict_counterexample:
  "from_dict accept_bracketed [''actor_id'' \<mapsto> PyStr ''https://lemmy.ml/c/rust'']
     = Inl (KeyError ''id'')"
  by (simp add: from_dict_def dict_item_def)

text \<open>
  C10. For a community whose host is plain, as every host that \<open>from_url\<close> returns is,
  and for any sort name or none, \<open>urlsplit\<close> finds the scheme \<open>https\<close> and that host in
  both rendered URLs: the scheme of the URL the community was parsed from plays no part.
\<close>

theorem rendered_urls_scheme_host:
  assumes "plain_host chk (instance_c c)"
  shows "(\<exists>p. urlsplit chk (html_url c sort_by) = Inr p \<and> scheme p = ''https''
              \<and> netloc p = instance_c c)
       \<and> (\<exists>p. urlsplit chk (rss_url c sort_by) = Inr p \<and> scheme p = ''https''
              \<and> netloc p = instance_c c)"
  using rendered_urls_parse_back [OF assms, of sort_by] by (intro conjI)

theorem rendered_urls_scheme_host_witness:
  "from_url accept_bracketed (PyStr ''http://lemmy.ml/c/rust'') PyNone PyNone PyNone
     = Inr \<lparr>instance_c = ''lemmy.ml'', name_c = ''rust'', id_c = PyNone, title_c = PyNone,
            description_c = PyNone, is_kbin = False\<rparr>
   \<and> plain_host accept_bracketed ''lemmy.ml''
   \<and> html_url \<lparr>instance_c = ''lemmy.ml'', name_c = ''rust'', id_c = PyNone,
            title_c = PyNone, description_c = PyNone, is_kbin = False\<rparr> (Some ''new'')
       = ''https://lemmy.ml/c/rust?sort=New''
   \<and> rss_url \<lparr>instance_c = ''lemmy.ml'', name_c = ''rust'', id_c = PyNone,
            title_c = PyNone, description_c = PyNone, is_kbin = False\<rparr> (Some ''new'')
       = ''https://lemmy.ml/feeds/c/rust.xml?sort=New''
   \<and> (\<exists>p. urlsplit accept_bracketed ''https://lemmy.ml/c/rust?sort=New'' = Inr p
          \<and> scheme p = ''https'' \<and> netloc p = ''lemmy.ml'')
   \<and> (\<exists>p. urlsplit accept_bracketed ''https://lemmy.ml/feeds/c/rust.xml?sort=New'' = Inr p
          \<and> scheme p = ''https'' \<and> netloc p = ''lemmy.ml'')"
proof -
  let ?c = "\<lparr>instance_c = ''lemmy.ml'', name_c = ''rust'', id_c = PyNone,
            title_c = PyNone, description_c = PyNone, is_kbin = False\<rparr>"
  have p: "from_url accept_bracketed (PyStr ''http://lemmy.ml/c/rust'') PyNone PyNone PyNone
     = Inr ?c"
    by code_simp
  have h: "plain_host accept_bracketed ''lemmy.ml''"
    by (simp add: plain_host_def plain_name_def netloc_brackets_ok_def
        UNSAFE_URL_BYTES_TO_REMOVE_def)
  have u: "html_url ?c (Some ''new'') = ''https://lemmy.ml/c/rust?sort=New''"
    by code_simp
  have f: "rss_url ?c (Some ''new'') = ''https://lemmy.ml/feeds/c/rust.xml?sort=New''"
    by code_simp
  have "(\<exists>p. urlsplit accept_bracketed (html_url ?c (Some ''new'')) = Inr p
            \<and> scheme p = ''https'' \<and> netloc p = ''lemmy.ml'')
        \<and> (\<exists>p. urlsplit accept_bracketed (rss_url ?c (Some ''new'')) = Inr p
            \<and> scheme p = ''https'' \<and> netloc p = ''lemmy.ml'')"
    using rendered_urls_scheme_host [of accept_bracketed ?c "Some ''new''"] h by simp
  then show ?thesis
    unfolding u f using p h u f by (intro conjI) simp_all
qed

text \<open>
  The community \<open>!rust@a/b\<close> is rendered as \<open>https://a/b/c/rust\<close> and
  \<open>https://a/b/feeds/c/rust.xml\<close>, URLs whose host is \<open>a\<close>.
\<close>

theorem rendered_urls_scheme_host_counterexample:
  "html_url \<lparr>instance_c = ''a/b'', name_c = ''rust'', id_c = PyNone, title_c = PyNone,
      description_c = PyNone, is_kbin = False\<rparr> None = ''https://a/b/c/rust''
   \<and> urlsplit accept_bracketed ''https://a/b/c/rust''
      = Inr \<lparr>scheme = ''https'', netloc = ''a'', path = ''/b/c/rust'', query = [],
             fragment = []\<rparr>
   \<and> rss_url \<lparr>instance_c = ''a/b'', name_c = ''rust'', id_c = PyNone, title_c = PyNone,
      description_c = PyNone, is_kbin = False\<rparr> None = ''https://a/b/feeds/c/rust.xml''
   \<and> urlsplit accept_bracketed ''https://a/b/feeds/c/rust.xml''
      = Inr \<lparr>scheme = ''https'', netloc = ''a'', path = ''/b/feeds/c/rust.xml'', query = [],
             fragment = []\<rparr>"
  by code_simp

end
